theory Spec2Isabelle
  imports Main "HOL-Library.Word" "HOL-Library.Sublist"
begin

section \<open>The dispatcher of queryperf++ (src/lib/dispatcher.cc)\<close>

text \<open>
  The dispatcher keeps a window of outstanding queries, restarts a query when its response
  arrives or its timer expires, and stops once the session timer has expired and the
  window has drained. Everything runs in one thread inside the callbacks of the message
  manager, so each callback is a function from the dispatcher state to the dispatcher
  state. An exception or a failed assertion is an outcome of its own.
\<close>

subsection \<open>Basic types\<close>

text \<open>
  \<open>qid_t\<close> is the identifier type of the DNS library, 16 bits wide as the spec says
  of the identifier field. \<open>size_t\<close> is taken as 64 bits wide. Both are unsigned, and
  \<open>++\<close> wraps around at the width.
\<close>

type_synonym qid_t = "16 word"
type_synonym size_t = "64 word"
type_synonym byte = "8 word"

text \<open>\<open>boost::posix_time::time_duration\<close>, counted in seconds.\<close>

type_synonym time_duration = int

text \<open>\<open>seconds(n)\<close> takes a \<open>long\<close>: a \<open>size_t\<close> argument is converted.\<close>

definition seconds :: "size_t \<Rightarrow> time_duration" where
  "seconds n = sint n"

text \<open>
  \<open>boost::posix_time::ptime\<close>: a default-constructed \<open>ptime\<close> is
  \<open>not_a_date_time\<close>; a clock reading is an ordinary time.
\<close>

datatype ptime = not_a_date_time | neg_infin | pos_infin | ptime nat

fun is_special :: "ptime \<Rightarrow> bool" where
  "is_special (ptime t) = False"
| "is_special _ = True"

text \<open>\<open>microsec_clock::local_time()\<close>, given the reading of the clock.\<close>

definition local_time :: "nat \<Rightarrow> ptime" where
  "local_time clock = ptime clock"

datatype error =
  DispatcherError string
| MessageTooShort
| AssertionFailure

text \<open>
  How a call ends: it returns, it raises (an exception propagates to the caller, or an
  assertion aborts), or, for the event loop only, it is still running when the given
  events are used up. Each outcome carries the dispatcher state reached.
\<close>

datatype 's outcome = Returned 's | Raised error 's | Running 's

fun state_of :: "'s outcome \<Rightarrow> 's" where
  "state_of (Returned s) = s"
| "state_of (Raised e s) = s"
| "state_of (Running s) = s"

subsection \<open>Collaborators, at their interface\<close>

text \<open>
  Modelled from the spec: the query context, the timer, the socket and the message
  manager are classes of the repository that are not under src/; the spec gives their
  interface (its section 6), and the dispatcher uses nothing else of them. Each is a
  record of what the dispatcher has done to it.

  A query context is an object of the query source; \<open>ctx_serial\<close> tells the objects
  apart (the n-th object the creator made) and \<open>ctx_started\<close> counts its \<open>start\<close>
  calls. The wire data it produces records the context and the identifier.
\<close>

record QueryContext =
  ctx_serial :: nat
  ctx_started :: nat

record WireData =
  data_ctx :: nat
  data_seq :: nat
  data_qid :: qid_t

definition QueryContext_start :: "qid_t \<Rightarrow> QueryContext \<Rightarrow> WireData \<times> QueryContext" where
  "QueryContext_start qid ctx =
     (\<lparr>data_ctx = ctx_serial ctx, data_seq = ctx_started ctx, data_qid = qid\<rparr>,
      ctx\<lparr>ctx_started := Suc (ctx_started ctx)\<rparr>)"

text \<open>A timer: how often it was started, and the duration it was last armed with.\<close>

record MessageTimer =
  timer_starts :: nat
  timer_armed :: "time_duration option"

definition createMessageTimer :: MessageTimer where
  "createMessageTimer = \<lparr>timer_starts = 0, timer_armed = None\<rparr>"

definition MessageTimer_start :: "time_duration \<Rightarrow> MessageTimer \<Rightarrow> MessageTimer" where
  "MessageTimer_start d t = t\<lparr>timer_starts := Suc (timer_starts t), timer_armed := Some d\<rparr>"

text \<open>The socket: the data sent through it, oldest first.\<close>

record MessageSocket =
  sock_proto_udp :: bool
  sock_address :: string
  sock_port :: "16 word"
  sock_sent :: "WireData list"

definition createMessageSocket :: "string \<Rightarrow> 16 word \<Rightarrow> MessageSocket" where
  "createMessageSocket address port =
     \<lparr>sock_proto_udp = True, sock_address = address, sock_port = port, sock_sent = []\<rparr>"

definition MessageSocket_send :: "WireData \<Rightarrow> MessageSocket \<Rightarrow> MessageSocket" where
  "MessageSocket_send d sock = sock\<lparr>sock_sent := sock_sent sock @ [d]\<rparr>"

text \<open>The message manager: how often \<open>stop()\<close> was called on it.\<close>

record MessageManager =
  stop_calls :: nat

definition MessageManager_stop :: "MessageManager \<Rightarrow> MessageManager" where
  "MessageManager_stop m = m\<lparr>stop_calls := Suc (stop_calls m)\<rparr>"

text \<open>The placeholder for response messages: cleared, or with a parsed header.\<close>

datatype Message = Cleared | Parsed qid_t

subsection \<open>\<open>std::list\<close> operations\<close>

text \<open>
  A list iterator is a position: \<open>i < length xs\<close> points to the element \<open>xs ! i\<close>, and
  \<open>length xs\<close> is \<open>end()\<close>. \<open>find_if\<close> returns the first position whose element
  satisfies the predicate, \<open>end()\<close> when there is none.
\<close>

fun find_if :: "('a \<Rightarrow> bool) \<Rightarrow> 'a list \<Rightarrow> nat" where
  "find_if P [] = 0"
| "find_if P (x # xs) = (if P x then 0 else Suc (find_if P xs))"

definition erase :: "nat \<Rightarrow> 'a list \<Rightarrow> 'a list" where
  "erase i xs = take i xs @ drop (Suc i) xs"

text \<open>
  \<open>l.splice(pos, l, it)\<close>, here \<open>splice_node pos l it\<close>, moves the node at \<open>it\<close> in
  front of the node at \<open>pos\<close>.
  A \<open>std::list\<close> is a ring of nodes closed by a sentinel node, which is what \<open>end()\<close>
  points to; the list's elements are the nodes that follow the sentinel. The operation
  does nothing when \<open>pos\<close> is \<open>it\<close> or its successor; otherwise it unlinks the node
  at \<open>it\<close> and links it in again before \<open>pos\<close>. The C++ standard defines the result
  for a dereferenceable \<open>it\<close> only. With \<open>it = end()\<close> the node that the library
  (libstdc++ \<open>_M_transfer\<close>, libc++ \<open>__unlink_nodes\<close>/\<open>__link_nodes\<close>) relinks is the
  sentinel, and the ring is read from its new place. The ring is written here with the
  sentinel as \<open>None\<close>, last.
\<close>

definition from_sentinel :: "'a option list \<Rightarrow> 'a list" where
  "from_sentinel ring =
     (let i = find_if (\<lambda>n. n = None) ring
      in map the (drop (Suc i) ring @ take i ring))"

definition splice_node :: "nat \<Rightarrow> 'a list \<Rightarrow> nat \<Rightarrow> 'a list" where
  "splice_node pos xs it =
     (let ring = map Some xs @ [None];
          j = (if it = length xs then 0 else Suc it)
      in if pos = it \<or> pos = j then xs
         else
           (let node = ring ! it;
                others = take it ring @ drop (Suc it) ring;
                p = (if pos < it then pos else pos - 1)
            in from_sentinel (take p others @ [node] @ drop p others)))"

subsection \<open>\<open>QueryEvent\<close>: one outstanding query\<close>

text \<open>
  A member \<^verbatim>\<open>x_\<close> of the source is written \<open>x_'\<close>, here and in \<open>DispatcherImpl\<close>,
  since a name cannot end in an underscore. The \<^verbatim>\<open>qid_\<close> of this class is
  \<open>ev_qid_'\<close>, since the dispatcher has a \<^verbatim>\<open>qid_\<close> of its own. The restart callback is
  always the dispatcher's \<open>restartQuery\<close>.
\<close>

record QueryEvent =
  ctx_' :: QueryContext
  ev_qid_' :: qid_t
  timer_' :: MessageTimer

definition QueryEvent_new :: "qid_t \<Rightarrow> QueryContext \<Rightarrow> QueryEvent" where
  "QueryEvent_new qid ctx = \<lparr>ctx_' = ctx, ev_qid_' = qid, timer_' = createMessageTimer\<rparr>"

definition QueryEvent_start :: "qid_t \<Rightarrow> time_duration \<Rightarrow> QueryEvent \<Rightarrow> WireData \<times> QueryEvent" where
  "QueryEvent_start qid timeout ev =
     (let ev1 = ev\<lparr>ev_qid_' := qid\<rparr>;
          ev2 = ev1\<lparr>timer_' := MessageTimer_start timeout (timer_' ev1)\<rparr>;
          (wire, ctx') = QueryContext_start (ev_qid_' ev2) (ctx_' ev2)
      in (wire, ev2\<lparr>ctx_' := ctx'\<rparr>))"

definition matchResponse :: "QueryEvent \<Rightarrow> qid_t \<Rightarrow> bool" where
  "matchResponse ev qid = (ev_qid_' ev = qid)"

subsection \<open>\<open>DispatcherImpl\<close>\<close>

record DispatcherImpl =
  msg_mgr_' :: MessageManager
  qryctx_creator_' :: nat
  udp_socket_' :: "MessageSocket option"
  session_timer_' :: "MessageTimer option"
  server_address_' :: string
  server_port_' :: "16 word"
  test_duration_' :: size_t
  query_timeout_' :: time_duration
  keep_sending_' :: bool
  window_' :: size_t
  qid_' :: qid_t
  response_' :: Message
  outstanding_' :: "QueryEvent list"
  queries_sent_' :: size_t
  queries_completed_' :: size_t
  start_time_' :: ptime
  end_time_' :: ptime

text \<open>
  The default constants are declared in \<open>dispatcher.h\<close>, except \<open>DEFAULT_SERVER\<close>,
  which \<open>dispatcher.cc\<close> defines; the others are parameters.
\<close>

record defaults =
  DEFAULT_WINDOW :: size_t
  DEFAULT_PORT :: "16 word"
  DEFAULT_DURATION :: size_t
  DEFAULT_QUERY_TIMEOUT :: size_t

definition DEFAULT_SERVER :: string where
  "DEFAULT_SERVER = ''::1''"

definition initParams :: "defaults \<Rightarrow> DispatcherImpl \<Rightarrow> DispatcherImpl" where
  "initParams d s =
     s\<lparr>keep_sending_' := True,
       window_' := DEFAULT_WINDOW d,
       qid_' := 0,
       queries_sent_' := 0,
       queries_completed_' := 0,
       server_address_' := DEFAULT_SERVER,
       server_port_' := DEFAULT_PORT d,
       test_duration_' := DEFAULT_DURATION d,
       query_timeout_' := seconds (DEFAULT_QUERY_TIMEOUT d)\<rparr>"

text \<open>
  The constructor: the members the initialiser list and the default constructors set
  (null pointers, an empty list, a cleared message, times that are not a date), then
  \<open>initParams\<close>.
\<close>

definition DispatcherImpl_new :: "defaults \<Rightarrow> MessageManager \<Rightarrow> nat \<Rightarrow> DispatcherImpl" where
  "DispatcherImpl_new d mgr creator =
     initParams d
       \<lparr>msg_mgr_' = mgr, qryctx_creator_' = creator,
        udp_socket_' = None, session_timer_' = None,
        server_address_' = [], server_port_' = 0, test_duration_' = 0, query_timeout_' = 0,
        keep_sending_' = False, window_' = 0, qid_' = 0, response_' = Cleared,
        outstanding_' = [], queries_sent_' = 0, queries_completed_' = 0,
        start_time_' = not_a_date_time, end_time_' = not_a_date_time\<rparr>"

definition sessionTimerCallback :: "DispatcherImpl \<Rightarrow> DispatcherImpl" where
  "sessionTimerCallback s = s\<lparr>keep_sending_' := False\<rparr>"

text \<open>
  The four statements that \<open>run\<close> and \<open>restartQuery\<close> share: start the query event at
  position \<open>i\<close> with the current \<open>qid_\<close>, send its data, count it, advance \<open>qid_\<close>.
  \<open>udp_socket_\<close> is a \<open>scoped_ptr\<close>, whose \<open>operator->\<close> asserts that it is not null.
\<close>

definition send_query :: "nat \<Rightarrow> DispatcherImpl \<Rightarrow> DispatcherImpl outcome" where
  "send_query i s =
     (let (qry_data, ev') = QueryEvent_start (qid_' s) (query_timeout_' s) (outstanding_' s ! i);
          s1 = s\<lparr>outstanding_' := (outstanding_' s)[i := ev']\<rparr>
      in case udp_socket_' s1 of
           None \<Rightarrow> Raised AssertionFailure s1
         | Some sock \<Rightarrow>
             Returned (s1\<lparr>udp_socket_' := Some (MessageSocket_send qry_data sock),
                          queries_sent_' := queries_sent_' s1 + 1,
                          qid_' := qid_' s1 + 1\<rparr>))"

text \<open>
  \<open>restartQuery(qid, response)\<close>; \<open>response\<close> is \<open>None\<close> for the null pointer that the
  timer callback passes.
\<close>

definition restartQuery :: "qid_t \<Rightarrow> Message option \<Rightarrow> DispatcherImpl \<Rightarrow> DispatcherImpl outcome" where
  "restartQuery qid response s =
     (let qev_it = find_if (\<lambda>ev. matchResponse ev qid) (outstanding_' s)
      in if qev_it \<noteq> length (outstanding_' s) then
           (let s1 = (if response \<noteq> None
                      then s\<lparr>queries_completed_' := queries_completed_' s + 1\<rparr> else s)
            in if keep_sending_' s1 then
                 (case send_query qev_it s1 of
                    Returned s2 \<Rightarrow>
                      Returned (s2\<lparr>outstanding_' :=
                        splice_node qev_it (outstanding_' s2) (length (outstanding_' s2))\<rparr>)
                  | other \<Rightarrow> other)
               else
                 (let s2 = s1\<lparr>outstanding_' := erase qev_it (outstanding_' s1)\<rparr>
                  in if outstanding_' s2 = []
                     then Returned (s2\<lparr>msg_mgr_' := MessageManager_stop (msg_mgr_' s2)\<rparr>)
                     else Returned s2))
         else Returned s)"

text \<open>The timer callback of a query event reports its current identifier, with no response.\<close>

definition queryTimerCallback :: "QueryEvent \<Rightarrow> DispatcherImpl \<Rightarrow> DispatcherImpl outcome" where
  "queryTimerCallback ev s = restartQuery (ev_qid_' ev) None s"

text \<open>
  \<open>responseCallback\<close>: the header parser belongs to the DNS library and is a parameter.
  It returns the identifier of the header or raises; the callback has no handler, so what
  the parser raises leaves the callback.
\<close>

definition responseCallback ::
  "(byte list \<Rightarrow> error + qid_t) \<Rightarrow> byte list \<Rightarrow> DispatcherImpl \<Rightarrow> DispatcherImpl outcome" where
  "responseCallback parseHeader sockev s =
     (let s1 = s\<lparr>response_' := Cleared\<rparr>
      in case parseHeader sockev of
           Inl e \<Rightarrow> Raised e s1
         | Inr q \<Rightarrow>
             (let s2 = s1\<lparr>response_' := Parsed q\<rparr>
              in restartQuery q (Some (response_' s2)) s2))"

text \<open>
  Modelled from the spec: the header parser of the DNS library, which is not under src/,
  to evaluate with. A payload too short for the identifier to be extracted is refused:
  the parser raises, as the comment in \<open>responseCallback\<close> expects. A DNS header has
  twelve bytes and starts with the identifier, in network byte order.
\<close>

definition parseHeader :: "byte list \<Rightarrow> error + qid_t" where
  "parseHeader buffer =
     (if length buffer < 12 then Inl MessageTooShort
      else Inr (word_cat (buffer ! 0) (buffer ! 1)))"

subsection \<open>The event loop\<close>

text \<open>
  What the message manager delivers: a datagram, the expiry of the timer of the query
  event at a position of the window, the expiry of the session timer.
\<close>

datatype event = Response "byte list" | QueryTimer nat | SessionTimer

fun dispatch ::
  "(byte list \<Rightarrow> error + qid_t) \<Rightarrow> event \<Rightarrow> DispatcherImpl \<Rightarrow> DispatcherImpl outcome" where
  "dispatch parse (Response sockev) s = responseCallback parse sockev s"
| "dispatch parse (QueryTimer i) s =
     (if i < length (outstanding_' s) then queryTimerCallback (outstanding_' s ! i) s
      else Returned s)"
| "dispatch parse SessionTimer s = Returned (sessionTimerCallback s)"

text \<open>
  \<open>msg_mgr_->run()\<close> on the events that arrive: it returns once \<open>stop()\<close> has been
  called, an exception from a callback leaves it, and it is still running when the events
  are used up before that.
\<close>

fun MessageManager_run ::
  "(byte list \<Rightarrow> error + qid_t) \<Rightarrow> event list \<Rightarrow> DispatcherImpl \<Rightarrow> DispatcherImpl outcome" where
  "MessageManager_run parse [] s =
     (if stop_calls (msg_mgr_' s) \<noteq> 0 then Returned s else Running s)"
| "MessageManager_run parse (ev # evs) s =
     (if stop_calls (msg_mgr_' s) \<noteq> 0 then Returned s
      else case dispatch parse ev s of
             Returned s' \<Rightarrow> MessageManager_run parse evs s'
           | other \<Rightarrow> other)"

subsection \<open>\<open>run\<close>\<close>

text \<open>The first loop of \<open>run\<close>: \<open>n\<close> more query events, each with a new context and qid 0.\<close>

primrec create_pool :: "nat \<Rightarrow> DispatcherImpl \<Rightarrow> DispatcherImpl" where
  "create_pool 0 s = s"
| "create_pool (Suc n) s =
     create_pool n
       (s\<lparr>qryctx_creator_' := Suc (qryctx_creator_' s),
          outstanding_' := outstanding_' s @
            [QueryEvent_new 0 \<lparr>ctx_serial = qryctx_creator_' s, ctx_started = 0\<rparr>]\<rparr>)"

text \<open>The second loop: every query event of the window, in order.\<close>

fun dispatch_initial :: "nat list \<Rightarrow> DispatcherImpl \<Rightarrow> DispatcherImpl outcome" where
  "dispatch_initial [] s = Returned s"
| "dispatch_initial (i # is) s =
     (case send_query i s of
        Returned s' \<Rightarrow> dispatch_initial is s'
      | other \<Rightarrow> other)"

text \<open>\<open>DispatcherImpl::run\<close> up to the event loop; \<open>clock\<close> is the clock's reading.\<close>

definition run_init :: "nat \<Rightarrow> DispatcherImpl \<Rightarrow> DispatcherImpl outcome" where
  "run_init clock s =
     (let s1 = s\<lparr>udp_socket_' := Some (createMessageSocket (server_address_' s) (server_port_' s))\<rparr>;
          s2 = s1\<lparr>session_timer_' := Some createMessageTimer\<rparr>;
          s3 = s2\<lparr>session_timer_' :=
                 map_option (MessageTimer_start (seconds (test_duration_' s2))) (session_timer_' s2)\<rparr>;
          s4 = create_pool (unat (window_' s3)) s3;
          s5 = s4\<lparr>start_time_' := local_time clock\<rparr>
      in dispatch_initial [0..<length (outstanding_' s5)] s5)"

definition impl_run ::
  "(byte list \<Rightarrow> error + qid_t) \<Rightarrow> nat \<Rightarrow> event list \<Rightarrow> DispatcherImpl \<Rightarrow> DispatcherImpl outcome" where
  "impl_run parse clock evs s =
     (case run_init clock s of
        Returned s' \<Rightarrow> MessageManager_run parse evs s'
      | other \<Rightarrow> other)"

subsection \<open>The public interface of \<open>Dispatcher\<close>\<close>

text \<open>
  \<open>Dispatcher::run\<close>: \<open>clock\<close> is the reading when the queries start,
  \<open>clock'\<close> the reading when the event loop has returned.
\<close>

definition Dispatcher_run ::
  "(byte list \<Rightarrow> error + qid_t) \<Rightarrow> nat \<Rightarrow> nat \<Rightarrow> event list \<Rightarrow> DispatcherImpl
     \<Rightarrow> DispatcherImpl outcome" where
  "Dispatcher_run parse clock clock' evs s =
     (if udp_socket_' s \<noteq> None then Raised AssertionFailure s
      else case impl_run parse clock evs s of
             Returned s' \<Rightarrow> Returned (s'\<lparr>end_time_' := local_time clock'\<rparr>)
           | other \<Rightarrow> other)"

definition setServerAddress :: "string \<Rightarrow> DispatcherImpl \<Rightarrow> DispatcherImpl outcome" where
  "setServerAddress address s =
     (if \<not> is_special (start_time_' s)
      then Raised (DispatcherError ''server address cannot be reset after run()'') s
      else Returned (s\<lparr>server_address_' := address\<rparr>))"

definition setServerPort :: "16 word \<Rightarrow> DispatcherImpl \<Rightarrow> DispatcherImpl outcome" where
  "setServerPort port s =
     (if \<not> is_special (start_time_' s)
      then Raised (DispatcherError ''server port cannot be reset after run()'') s
      else Returned (s\<lparr>server_port_' := port\<rparr>))"

definition setTestDuration :: "size_t \<Rightarrow> DispatcherImpl \<Rightarrow> DispatcherImpl outcome" where
  "setTestDuration duration s =
     (if \<not> is_special (start_time_' s)
      then Raised (DispatcherError ''test duration cannot be reset after run()'') s
      else Returned (s\<lparr>test_duration_' := duration\<rparr>))"

text \<open>The accessors: the value returned, and the state the call leaves.\<close>

definition getServerAddress :: "DispatcherImpl \<Rightarrow> string \<times> DispatcherImpl" where
  "getServerAddress s = (server_address_' s, s)"

definition getServerPort :: "DispatcherImpl \<Rightarrow> 16 word \<times> DispatcherImpl" where
  "getServerPort s = (server_port_' s, s)"

definition getTestDuration :: "DispatcherImpl \<Rightarrow> size_t \<times> DispatcherImpl" where
  "getTestDuration s = (test_duration_' s, s)"

definition getQueriesSent :: "DispatcherImpl \<Rightarrow> size_t \<times> DispatcherImpl" where
  "getQueriesSent s = (queries_sent_' s, s)"

definition getQueriesCompleted :: "DispatcherImpl \<Rightarrow> size_t \<times> DispatcherImpl" where
  "getQueriesCompleted s = (queries_completed_' s, s)"

definition getStartTime :: "DispatcherImpl \<Rightarrow> ptime \<times> DispatcherImpl" where
  "getStartTime s = (start_time_' s, s)"

definition getEndTime :: "DispatcherImpl \<Rightarrow> ptime \<times> DispatcherImpl" where
  "getEndTime s = (end_time_' s, s)"

subsection \<open>States to evaluate on\<close>

definition example_defaults :: defaults where
  "example_defaults =
     \<lparr>DEFAULT_WINDOW = 3, DEFAULT_PORT = 53, DEFAULT_DURATION = 30, DEFAULT_QUERY_TIMEOUT = 5\<rparr>"

text \<open>A dispatcher as constructed, and the same dispatcher when \<open>run\<close> enters the event loop.\<close>

definition example_fresh :: DispatcherImpl where
  "example_fresh = DispatcherImpl_new example_defaults \<lparr>stop_calls = 0\<rparr> 0"

definition example_running :: DispatcherImpl where
  "example_running = state_of (run_init 100 example_fresh)"

subsection \<open>The counters and the window\<close>

text \<open>
  What the counters keep while neither has wrapped around: the socket exists, and every
  query sent is completed or outstanding or has timed out.
\<close>

definition counted :: "DispatcherImpl \<Rightarrow> bool" where
  "counted s \<longleftrightarrow>
     udp_socket_' s \<noteq> None
     \<and> unat (queries_completed_' s) + length (outstanding_' s) \<le> unat (queries_sent_' s)"

section \<open>Lemmas about the operations\<close>

subsection \<open>The list operations\<close>

lemma find_if_le: "find_if P xs \<le> length xs"
  by (induction xs) auto

lemma find_if_none: "find_if P xs = length xs \<longleftrightarrow> (\<forall>x \<in> set xs. \<not> P x)"
proof (induction xs)
  case Nil
  show ?case by simp
next
  case (Cons x xs)
  have "find_if P xs \<le> length xs" by (rule find_if_le)
  with Cons show ?case by auto
qed

lemma find_if_nth: "find_if P xs < length xs \<Longrightarrow> P (xs ! find_if P xs)"
  by (induction xs) auto

lemma find_if_sentinel:
  "find_if (\<lambda>n. n = None) (map Some ys @ None # zs) = length ys"
  by (induction ys) auto

lemma from_sentinel_ring:
  "from_sentinel (map Some ys @ [None] @ map Some zs) = zs @ ys"
  by (simp add: from_sentinel_def find_if_sentinel comp_def)

lemma splice_node_end:
  assumes "pos \<le> length xs"
  shows "splice_node pos xs (length xs) = drop pos xs @ take pos xs"
proof (cases "pos = length xs \<or> pos = 0")
  case True
  then show ?thesis by (auto simp: splice_node_def)
next
  case False
  with assms have lt: "pos < length xs" and pos: "pos \<noteq> 0" by auto
  have "splice_node pos xs (length xs) =
      from_sentinel (take pos (map Some xs) @ [None] @ drop pos (map Some xs))"
    using lt pos by (simp add: splice_node_def nth_append)
  also have "\<dots> = from_sentinel (map Some (take pos xs) @ [None] @ map Some (drop pos xs))"
    by (simp add: take_map drop_map)
  also have "\<dots> = drop pos xs @ take pos xs"
    by (rule from_sentinel_ring)
  finally show ?thesis .
qed

text \<open>
  With the arguments the other way round, \<open>l.splice(l.end(), l, it)\<close>, the element at
  \<open>it\<close> goes to the back and the others keep their order.
\<close>

lemma splice_node_to_end:
  assumes "i < length xs"
  shows "splice_node (length xs) xs i = take i xs @ drop (Suc i) xs @ [xs ! i]"
proof (cases "Suc i = length xs")
  case True
  then have "take i xs @ [xs ! i] = xs"
    by (metis assms take_Suc_conv_app_nth take_all order_refl)
  with True show ?thesis by (simp add: splice_node_def)
next
  case False
  with assms have lt: "Suc i < length xs" by simp
  have "splice_node (length xs) xs i =
      from_sentinel (map Some (take i xs @ drop (Suc i) xs @ [xs ! i]) @ [None] @ map Some [])"
    using lt assms by (auto simp: splice_node_def Let_def nth_append take_map drop_map min_def)
  also have "\<dots> = take i xs @ drop (Suc i) xs @ [xs ! i]"
    by (simp only: from_sentinel_ring append_Nil)
  finally show ?thesis .
qed

subsection \<open>The branches of \<open>restartQuery\<close>\<close>

lemma QueryEvent_start_fst:
  "fst (QueryEvent_start q t ev) =
     \<lparr>data_ctx = ctx_serial (ctx_' ev), data_seq = ctx_started (ctx_' ev), data_qid = q\<rparr>"
  by (simp add: QueryEvent_start_def QueryContext_start_def)

lemma QueryEvent_start_snd:
  "snd (QueryEvent_start q t ev) =
     \<lparr>ctx_' = (ctx_' ev)\<lparr>ctx_started := Suc (ctx_started (ctx_' ev))\<rparr>,
      ev_qid_' = q,
      timer_' = \<lparr>timer_starts = Suc (timer_starts (timer_' ev)), timer_armed = Some t\<rparr>\<rparr>"
  by (simp add: QueryEvent_start_def QueryContext_start_def MessageTimer_start_def)

lemma send_query_Some:
  assumes "udp_socket_' s = Some sock"
  shows "send_query i s =
     Returned (s\<lparr>outstanding_' :=
                   (outstanding_' s)[i := snd (QueryEvent_start (qid_' s) (query_timeout_' s) (outstanding_' s ! i))],
                 udp_socket_' := Some (MessageSocket_send
                   (fst (QueryEvent_start (qid_' s) (query_timeout_' s) (outstanding_' s ! i))) sock),
                 queries_sent_' := queries_sent_' s + 1,
                 qid_' := qid_' s + 1\<rparr>)"
  using assms by (simp add: send_query_def split: prod.splits)

lemma restartQuery_no_match:
  assumes "find_if (\<lambda>ev. matchResponse ev q) (outstanding_' s) = length (outstanding_' s)"
  shows "restartQuery q r s = Returned s"
  using assms by (simp add: restartQuery_def)

lemma restartQuery_draining:
  assumes "\<not> keep_sending_' s"
    and "find_if (\<lambda>ev. matchResponse ev q) (outstanding_' s) = k"
    and "k < length (outstanding_' s)"
  shows "restartQuery q r s =
     Returned (s\<lparr>queries_completed_' := (if r \<noteq> None then queries_completed_' s + 1 else queries_completed_' s),
                 outstanding_' := erase k (outstanding_' s),
                 msg_mgr_' := (if erase k (outstanding_' s) = [] then MessageManager_stop (msg_mgr_' s) else msg_mgr_' s)\<rparr>)"
  using assms by (simp add: restartQuery_def Let_def)

lemma restartQuery_sending:
  assumes "keep_sending_' s"
    and "udp_socket_' s = Some sock"
    and "find_if (\<lambda>ev. matchResponse ev q) (outstanding_' s) = k"
    and "k < length (outstanding_' s)"
  shows "restartQuery q r s =
     Returned (s\<lparr>queries_completed_' := (if r \<noteq> None then queries_completed_' s + 1 else queries_completed_' s),
                 outstanding_' := 
                   drop k ((outstanding_' s)[k := snd (QueryEvent_start (qid_' s) (query_timeout_' s) (outstanding_' s ! k))])
                   @ take k (outstanding_' s),
                 udp_socket_' := Some (MessageSocket_send
                   (fst (QueryEvent_start (qid_' s) (query_timeout_' s) (outstanding_' s ! k))) sock),
                 queries_sent_' := queries_sent_' s + 1,
                 qid_' := qid_' s + 1\<rparr>)"
proof -
  let ?xs = "(outstanding_' s)[k := snd (QueryEvent_start (qid_' s) (query_timeout_' s) (outstanding_' s ! k))]"
  have sp: "splice_node k ?xs (length ?xs) = drop k ?xs @ take k ?xs"
    using assms(4) by (intro splice_node_end) simp
  show ?thesis
    using assms sp by (simp add: restartQuery_def Let_def send_query_Some)
qed

subsection \<open>The states to evaluate on, written out\<close>

lemma example_fresh_eq:
  "example_fresh =
     \<lparr>msg_mgr_' = \<lparr>stop_calls = 0\<rparr>, qryctx_creator_' = 0,
      udp_socket_' = None, session_timer_' = None,
      server_address_' = ''::1'', server_port_' = 53, test_duration_' = 30,
      query_timeout_' = 5, keep_sending_' = True, window_' = 3, qid_' = 0,
      response_' = Cleared, outstanding_' = [],
      queries_sent_' = 0, queries_completed_' = 0,
      start_time_' = not_a_date_time, end_time_' = not_a_date_time\<rparr>"
  by code_simp

lemma example_running_eq:
  "example_running =
     \<lparr>msg_mgr_' = \<lparr>stop_calls = 0\<rparr>, qryctx_creator_' = 3,
      udp_socket_' = Some \<lparr>sock_proto_udp = True, sock_address = ''::1'', sock_port = 53,
           sock_sent = [\<lparr>data_ctx = 0, data_seq = 0, data_qid = 0\<rparr>,
                        \<lparr>data_ctx = 1, data_seq = 0, data_qid = 1\<rparr>,
                        \<lparr>data_ctx = 2, data_seq = 0, data_qid = 2\<rparr>]\<rparr>,
      session_timer_' = Some \<lparr>timer_starts = 1, timer_armed = Some 30\<rparr>,
      server_address_' = ''::1'', server_port_' = 53, test_duration_' = 30,
      query_timeout_' = 5, keep_sending_' = True, window_' = 3, qid_' = 3,
      response_' = Cleared,
      outstanding_' =
       [\<lparr>ctx_' = \<lparr>ctx_serial = 0, ctx_started = 1\<rparr>, ev_qid_' = 0,
           timer_' = \<lparr>timer_starts = 1, timer_armed = Some 5\<rparr>\<rparr>,
        \<lparr>ctx_' = \<lparr>ctx_serial = 1, ctx_started = 1\<rparr>, ev_qid_' = 1,
           timer_' = \<lparr>timer_starts = 1, timer_armed = Some 5\<rparr>\<rparr>,
        \<lparr>ctx_' = \<lparr>ctx_serial = 2, ctx_started = 1\<rparr>, ev_qid_' = 2,
           timer_' = \<lparr>timer_starts = 1, timer_armed = Some 5\<rparr>\<rparr>],
      queries_sent_' = 3, queries_completed_' = 0, start_time_' = ptime 100,
      end_time_' = not_a_date_time\<rparr>"
  by code_simp

subsection \<open>What no callback changes\<close>

lemma send_query_None:
  assumes "udp_socket_' s = None"
  shows "send_query i s =
     Raised AssertionFailure (s\<lparr>outstanding_' :=
       (outstanding_' s)[i := snd (QueryEvent_start (qid_' s) (query_timeout_' s) (outstanding_' s ! i))]\<rparr>)"
  using assms by (simp add: send_query_def split: prod.splits)

lemma restartQuery_no_socket:
  assumes "keep_sending_' s"
    and "udp_socket_' s = None"
    and "find_if (\<lambda>ev. matchResponse ev q) (outstanding_' s) = k"
    and "k < length (outstanding_' s)"
  shows "restartQuery q r s =
     Raised AssertionFailure
       (s\<lparr>queries_completed_' := (if r \<noteq> None then queries_completed_' s + 1 else queries_completed_' s),
          outstanding_' :=
            (outstanding_' s)[k := snd (QueryEvent_start (qid_' s) (query_timeout_' s) (outstanding_' s ! k))]\<rparr>)"
  using assms by (simp add: restartQuery_def Let_def send_query_None)

lemma send_query_frame:
  "start_time_' (state_of (send_query i s)) = start_time_' s
   \<and> keep_sending_' (state_of (send_query i s)) = keep_sending_' s
   \<and> msg_mgr_' (state_of (send_query i s)) = msg_mgr_' s
   \<and> queries_completed_' (state_of (send_query i s)) = queries_completed_' s
   \<and> length (outstanding_' (state_of (send_query i s))) = length (outstanding_' s)"
proof (cases "udp_socket_' s")
  case None
  then show ?thesis by (simp add: send_query_None)
next
  case (Some sock)
  then show ?thesis by (simp add: send_query_Some)
qed

lemma restartQuery_frame:
  "start_time_' (state_of (restartQuery q r s)) = start_time_' s
   \<and> keep_sending_' (state_of (restartQuery q r s)) = keep_sending_' s"
proof -
  define k where "k = find_if (\<lambda>ev. matchResponse ev q) (outstanding_' s)"
  have le: "k \<le> length (outstanding_' s)"
    unfolding k_def by (rule find_if_le)
  show ?thesis
  proof (cases "k = length (outstanding_' s)")
    case True
    then show ?thesis by (simp add: restartQuery_no_match k_def)
  next
    case False
    with le have lt: "k < length (outstanding_' s)" by simp
    show ?thesis
    proof (cases "keep_sending_' s")
      case False
      then show ?thesis using lt by (simp add: restartQuery_draining [OF _ k_def [symmetric]])
    next
      case True
      show ?thesis
      proof (cases "udp_socket_' s")
        case None
        with True lt show ?thesis
          by (simp add: restartQuery_no_socket [OF _ _ k_def [symmetric]])
      next
        case (Some sock)
        with True lt show ?thesis
          by (simp add: restartQuery_sending [OF _ _ k_def [symmetric]])
      qed
    qed
  qed
qed

lemma responseCallback_Inl:
  assumes "parse sockev = Inl e"
  shows "responseCallback parse sockev s = Raised e (s\<lparr>response_' := Cleared\<rparr>)"
  using assms by (simp add: responseCallback_def)

lemma responseCallback_Inr:
  assumes "parse sockev = Inr q"
  shows "responseCallback parse sockev s
    = restartQuery q (Some (Parsed q)) (s\<lparr>response_' := Parsed q\<rparr>)"
  using assms by (simp add: responseCallback_def)

lemma responseCallback_frame:
  "start_time_' (state_of (responseCallback parse sockev s)) = start_time_' s
   \<and> keep_sending_' (state_of (responseCallback parse sockev s)) = keep_sending_' s"
proof (cases "parse sockev")
  case (Inl e)
  then show ?thesis by (simp add: responseCallback_Inl)
next
  case (Inr q)
  then show ?thesis by (simp add: responseCallback_Inr restartQuery_frame)
qed

lemma dispatch_start_time:
  "start_time_' (state_of (dispatch parse ev s)) = start_time_' s"
  by (cases ev)
    (simp_all add: responseCallback_frame queryTimerCallback_def restartQuery_frame
      sessionTimerCallback_def)

lemma MessageManager_run_start_time:
  "start_time_' (state_of (MessageManager_run parse evs s)) = start_time_' s"
proof (induction evs arbitrary: s)
  case Nil
  show ?case by simp
next
  case (Cons ev evs)
  show ?case
  proof (cases "dispatch parse ev s")
    case (Returned s')
    with Cons [of s'] dispatch_start_time [of parse ev s] show ?thesis by simp
  next
    case (Raised e s')
    with dispatch_start_time [of parse ev s] show ?thesis by simp
  next
    case (Running s')
    with dispatch_start_time [of parse ev s] show ?thesis by simp
  qed
qed

lemma dispatch_initial_start_time:
  "start_time_' (state_of (dispatch_initial is s)) = start_time_' s"
proof (induction "is" arbitrary: s)
  case Nil
  show ?case by simp
next
  case (Cons i "is")
  from send_query_frame [of i s] Cons show ?case
    by (cases "send_query i s") simp_all
qed

lemma run_init_start_time:
  "start_time_' (state_of (run_init clock s)) = ptime clock"
  by (simp add: run_init_def Let_def dispatch_initial_start_time local_time_def)

lemma impl_run_start_time:
  "start_time_' (state_of (impl_run parse clock evs s)) = ptime clock"
proof (cases "run_init clock s")
  case (Returned s')
  with run_init_start_time [of clock s] show ?thesis
    by (simp add: impl_run_def MessageManager_run_start_time)
next
  case (Raised e s')
  with run_init_start_time [of clock s] show ?thesis by (simp add: impl_run_def)
next
  case (Running s')
  with run_init_start_time [of clock s] show ?thesis by (simp add: impl_run_def)
qed

lemma DispatcherImpl_new_start_time:
  "start_time_' (DispatcherImpl_new d mgr creator) = not_a_date_time"
  by (simp add: DispatcherImpl_new_def initParams_def)

subsection \<open>Draining\<close>

lemma subseq_erase: "subseq (erase k xs) xs"
proof -
  have "drop (Suc k) xs = drop 1 (drop k xs)"
    by simp
  then have "suffix (drop (Suc k) xs) (drop k xs)"
    by (simp only: suffix_drop)
  then have "subseq (drop (Suc k) xs) (drop k xs)"
    by (rule suffix_imp_subseq)
  then have "subseq (take k xs @ drop (Suc k) xs) (take k xs @ drop k xs)"
    by (simp only: subseq_append')
  then show ?thesis
    by (simp only: erase_def append_take_drop_id)
qed

lemma restartQuery_draining_props:
  assumes "\<not> keep_sending_' s"
  shows "\<exists>s'. restartQuery q r s = Returned s'
    \<and> \<not> keep_sending_' s'
    \<and> queries_sent_' s' = queries_sent_' s
    \<and> qid_' s' = qid_' s
    \<and> udp_socket_' s' = udp_socket_' s
    \<and> subseq (outstanding_' s') (outstanding_' s)"
proof -
  define k where "k = find_if (\<lambda>ev. matchResponse ev q) (outstanding_' s)"
  have le: "k \<le> length (outstanding_' s)"
    unfolding k_def by (rule find_if_le)
  show ?thesis
  proof (cases "k = length (outstanding_' s)")
    case True
    then show ?thesis using assms by (simp add: restartQuery_no_match k_def)
  next
    case False
    with le have lt: "k < length (outstanding_' s)" by simp
    show ?thesis
      using assms lt
      by (simp add: restartQuery_draining [OF _ k_def [symmetric]] subseq_erase)
  qed
qed

lemma dispatch_draining_props:
  assumes "\<not> keep_sending_' s"
  shows "\<not> keep_sending_' (state_of (dispatch parse ev s))
    \<and> queries_sent_' (state_of (dispatch parse ev s)) = queries_sent_' s
    \<and> qid_' (state_of (dispatch parse ev s)) = qid_' s
    \<and> udp_socket_' (state_of (dispatch parse ev s)) = udp_socket_' s
    \<and> subseq (outstanding_' (state_of (dispatch parse ev s))) (outstanding_' s)"
proof (cases ev)
  case (Response sockev)
  show ?thesis
  proof (cases "parse sockev")
    case (Inl e)
    with Response assms show ?thesis by (simp add: responseCallback_Inl)
  next
    case (Inr q)
    from assms have "\<not> keep_sending_' (s\<lparr>response_' := Parsed q\<rparr>)" by simp
    from restartQuery_draining_props [OF this, of q "Some (Parsed q)"]
    obtain s' where "restartQuery q (Some (Parsed q)) (s\<lparr>response_' := Parsed q\<rparr>) = Returned s'"
      and "\<not> keep_sending_' s'" and "queries_sent_' s' = queries_sent_' s"
      and "qid_' s' = qid_' s" and "udp_socket_' s' = udp_socket_' s"
      and "subseq (outstanding_' s') (outstanding_' s)"
      by fastforce
    then show ?thesis using Response Inr by (simp add: responseCallback_Inr)
  qed
next
  case (QueryTimer i)
  from restartQuery_draining_props [OF assms, of "ev_qid_' (outstanding_' s ! i)" None]
  obtain s' where "restartQuery (ev_qid_' (outstanding_' s ! i)) None s = Returned s'"
    and "\<not> keep_sending_' s'" and "queries_sent_' s' = queries_sent_' s"
    and "qid_' s' = qid_' s" and "udp_socket_' s' = udp_socket_' s"
    and "subseq (outstanding_' s') (outstanding_' s)"
    by fastforce
  then show ?thesis using QueryTimer assms by (simp add: queryTimerCallback_def)
next
  case SessionTimer
  then show ?thesis using assms by (simp add: sessionTimerCallback_def)
qed

lemma MessageManager_run_draining_props:
  assumes "\<not> keep_sending_' s"
  shows "\<not> keep_sending_' (state_of (MessageManager_run parse evs s))
    \<and> queries_sent_' (state_of (MessageManager_run parse evs s)) = queries_sent_' s
    \<and> qid_' (state_of (MessageManager_run parse evs s)) = qid_' s
    \<and> udp_socket_' (state_of (MessageManager_run parse evs s)) = udp_socket_' s
    \<and> subseq (outstanding_' (state_of (MessageManager_run parse evs s))) (outstanding_' s)"
  using assms
proof (induction evs arbitrary: s)
  case Nil
  then show ?case by simp
next
  case (Cons ev evs)
  note step = dispatch_draining_props [OF Cons.prems, of parse ev]
  show ?case
  proof (cases "stop_calls (msg_mgr_' s) \<noteq> 0")
    case True
    then show ?thesis using Cons.prems by simp
  next
    case False
    show ?thesis
    proof (cases "dispatch parse ev s")
      case (Returned s')
      with step have d: "\<not> keep_sending_' s'" by simp
      have "subseq (outstanding_' (state_of (MessageManager_run parse evs s'))) (outstanding_' s)"
        using Cons.IH [OF d] step Returned
        by (metis state_of.simps(1) subseq_order.order_trans)
      with Cons.IH [OF d] step Returned False show ?thesis
        by simp
    next
      case (Raised e s')
      with step False show ?thesis by simp
    next
      case (Running s')
      with step False show ?thesis by simp
    qed
  qed
qed

lemma Dispatcher_run_Returned:
  assumes "Dispatcher_run parse clock clock' evs s = Returned s'"
  shows "end_time_' s' = local_time clock'"
  using assms
  by (cases "impl_run parse clock evs s") (auto simp: Dispatcher_run_def split: if_splits)

lemma drop_update_same:
  assumes "k < length xs"
  shows "drop k (xs[k := e]) = e # drop (Suc k) xs"
  using assms
proof (induction xs arbitrary: k)
  case Nil
  then show ?case by simp
next
  case (Cons x xs)
  then show ?case by (cases k) simp_all
qed

subsection \<open>The two loops of \<open>run\<close>\<close>

lemma create_pool_eq:
  "create_pool n s =
     s\<lparr>qryctx_creator_' := qryctx_creator_' s + n,
       outstanding_' := outstanding_' s @
         map (\<lambda>i. QueryEvent_new 0 \<lparr>ctx_serial = qryctx_creator_' s + i, ctx_started = 0\<rparr>) [0..<n]\<rparr>"
proof (induction n arbitrary: s)
  case 0
  show ?case by simp
next
  case (Suc n)
  have "map (\<lambda>i. QueryEvent_new 0 \<lparr>ctx_serial = qryctx_creator_' s + i, ctx_started = 0\<rparr>) [0..<Suc n]
      = QueryEvent_new 0 \<lparr>ctx_serial = qryctx_creator_' s, ctx_started = 0\<rparr>
        # map (\<lambda>i. QueryEvent_new 0 \<lparr>ctx_serial = Suc (qryctx_creator_' s) + i, ctx_started = 0\<rparr>) [0..<n]"
    by (simp only: upt_conv_Cons [of 0 "Suc n"] map_Suc_upt [symmetric] list.map map_map comp_def)
      simp
  then show ?case
    by (simp add: Suc.IH)
qed

lemma dispatch_initial_upt:
  assumes "udp_socket_' s = Some sock" and "n \<le> length (outstanding_' s)"
  shows "dispatch_initial [k..<n] s =
     Returned (s\<lparr>outstanding_' :=
                   map (\<lambda>i. if k \<le> i \<and> i < n
                             then snd (QueryEvent_start (qid_' s + of_nat (i - k)) (query_timeout_' s)
                                        (outstanding_' s ! i))
                             else outstanding_' s ! i) [0..<length (outstanding_' s)],
                 udp_socket_' := Some (sock\<lparr>sock_sent := sock_sent sock @
                   map (\<lambda>i. fst (QueryEvent_start (qid_' s + of_nat (i - k)) (query_timeout_' s)
                                    (outstanding_' s ! i))) [k..<n]\<rparr>),
                 queries_sent_' := queries_sent_' s + of_nat (n - k),
                 qid_' := qid_' s + of_nat (n - k)\<rparr>)"
  using assms
proof (induction "n - k" arbitrary: k s sock)
  case 0
  then have e: "[k..<n] = []" and nk: "n - k = 0" and le: "n \<le> k" by simp_all
  have "map (\<lambda>i. if k \<le> i \<and> i < n
                   then snd (QueryEvent_start (qid_' s + of_nat (i - k)) (query_timeout_' s)
                              (outstanding_' s ! i))
                   else outstanding_' s ! i) [0..<length (outstanding_' s)]
      = map (\<lambda>i. outstanding_' s ! i) [0..<length (outstanding_' s)]"
    using le by (intro map_cong [OF refl]) auto
  then have outs: "map (\<lambda>i. if k \<le> i \<and> i < n
                   then snd (QueryEvent_start (qid_' s + of_nat (i - k)) (query_timeout_' s)
                              (outstanding_' s ! i))
                   else outstanding_' s ! i) [0..<length (outstanding_' s)]
      = outstanding_' s"
    by (simp only: map_nth)
  have "s\<lparr>outstanding_' := outstanding_' s, udp_socket_' := udp_socket_' s\<rparr> = s"
    by simp
  then show ?case
    by (simp add: e nk outs "0.prems"(1) [symmetric] del: upt.simps)
next
  case (Suc m)
  then have lt: "k < n" and m: "m = n - Suc k" by simp_all
  let ?ev = "snd (QueryEvent_start (qid_' s) (query_timeout_' s) (outstanding_' s ! k))"
  let ?wire = "fst (QueryEvent_start (qid_' s) (query_timeout_' s) (outstanding_' s ! k))"
  let ?s1 = "s\<lparr>outstanding_' := (outstanding_' s)[k := ?ev],
                udp_socket_' := Some (MessageSocket_send ?wire sock),
                queries_sent_' := queries_sent_' s + 1,
                qid_' := qid_' s + 1\<rparr>"
  have step: "send_query k s = Returned ?s1"
    using Suc.prems(1) by (rule send_query_Some)
  have sock1: "udp_socket_' ?s1 = Some (MessageSocket_send ?wire sock)" by simp
  have len1: "n \<le> length (outstanding_' ?s1)" using Suc.prems(2) by simp
  note IH = Suc.hyps(1) [OF m sock1 len1]
  have upt: "[k..<n] = k # [Suc k..<n]"
    using lt by (simp add: upt_conv_Cons)
  have cnt: "n - k = Suc (n - Suc k)" using lt by simp
  have A: "map (\<lambda>i. if Suc k \<le> i \<and> i < n
                       then snd (QueryEvent_start (qid_' ?s1 + of_nat (i - Suc k)) (query_timeout_' ?s1)
                                  (outstanding_' ?s1 ! i))
                       else outstanding_' ?s1 ! i) [0..<length (outstanding_' ?s1)]
      = map (\<lambda>i. if k \<le> i \<and> i < n
                   then snd (QueryEvent_start (qid_' s + of_nat (i - k)) (query_timeout_' s)
                              (outstanding_' s ! i))
                   else outstanding_' s ! i) [0..<length (outstanding_' s)]"
  proof (rule map_cong)
    show "[0..<length (outstanding_' ?s1)] = [0..<length (outstanding_' s)]" by simp
  next
    fix i
    assume "i \<in> set [0..<length (outstanding_' s)]"
    then have i: "i < length (outstanding_' s)" by simp
    show "(if Suc k \<le> i \<and> i < n
           then snd (QueryEvent_start (qid_' ?s1 + of_nat (i - Suc k)) (query_timeout_' ?s1)
                      (outstanding_' ?s1 ! i))
           else outstanding_' ?s1 ! i)
        = (if k \<le> i \<and> i < n
           then snd (QueryEvent_start (qid_' s + of_nat (i - k)) (query_timeout_' s)
                      (outstanding_' s ! i))
           else outstanding_' s ! i)"
    proof (cases "Suc k \<le> i")
      case True
      then have "i - k = Suc (i - Suc k)" by simp
      then have "(of_nat (i - k) :: qid_t) = 1 + of_nat (i - Suc k)" by simp
      with True show ?thesis by (simp add: add.assoc)
    next
      case False
      with i lt show ?thesis by (cases "i = k") simp_all
    qed
  qed
  have W: "map (\<lambda>i. fst (QueryEvent_start (qid_' ?s1 + of_nat (i - Suc k)) (query_timeout_' ?s1)
                           (outstanding_' ?s1 ! i))) [Suc k..<n]
      = map (\<lambda>i. fst (QueryEvent_start (qid_' s + of_nat (i - k)) (query_timeout_' s)
                         (outstanding_' s ! i))) [Suc k..<n]"
  proof (rule map_cong [OF refl])
    fix i
    assume "i \<in> set [Suc k..<n]"
    then have i: "Suc k \<le> i" by simp
    then have "i - k = Suc (i - Suc k)" by simp
    then have "(of_nat (i - k) :: qid_t) = 1 + of_nat (i - Suc k)" by simp
    with i show "fst (QueryEvent_start (qid_' ?s1 + of_nat (i - Suc k)) (query_timeout_' ?s1)
                       (outstanding_' ?s1 ! i))
        = fst (QueryEvent_start (qid_' s + of_nat (i - k)) (query_timeout_' s) (outstanding_' s ! i))"
      by (simp add: add.assoc)
  qed
  have B: "(MessageSocket_send ?wire sock)\<lparr>sock_sent := sock_sent (MessageSocket_send ?wire sock) @
        map (\<lambda>i. fst (QueryEvent_start (qid_' s + of_nat (i - k)) (query_timeout_' s)
                         (outstanding_' s ! i))) [Suc k..<n]\<rparr>
      = sock\<lparr>sock_sent := sock_sent sock @
        map (\<lambda>i. fst (QueryEvent_start (qid_' s + of_nat (i - k)) (query_timeout_' s)
                         (outstanding_' s ! i))) [k..<n]\<rparr>"
    by (simp add: upt MessageSocket_send_def del: upt.simps)
  have C: "queries_sent_' ?s1 + of_nat (n - Suc k) = queries_sent_' s + of_nat (n - k)"
    by (simp add: cnt)
  have D: "qid_' ?s1 + of_nat (n - Suc k) = qid_' s + of_nat (n - k)"
    by (simp add: cnt)
  have "dispatch_initial [k..<n] s = dispatch_initial [Suc k..<n] ?s1"
    by (simp add: upt step del: upt.simps)
  also note IH
  finally show ?case
    unfolding A W B C D by simp
qed


lemma run_init_fresh:
  assumes "outstanding_' s = []"
  shows "run_init clock s =
     Returned (s\<lparr>udp_socket_' := Some
                   \<lparr>sock_proto_udp = True, sock_address = server_address_' s,
                    sock_port = server_port_' s,
                    sock_sent = map (\<lambda>i. \<lparr>data_ctx = qryctx_creator_' s + i, data_seq = 0,
                                           data_qid = qid_' s + of_nat i\<rparr>) [0..<unat (window_' s)]\<rparr>,
                 session_timer_' := Some
                   \<lparr>timer_starts = 1, timer_armed = Some (seconds (test_duration_' s))\<rparr>,
                 qryctx_creator_' := qryctx_creator_' s + unat (window_' s),
                 outstanding_' :=
                   map (\<lambda>i. \<lparr>ctx_' = \<lparr>ctx_serial = qryctx_creator_' s + i, ctx_started = 1\<rparr>,
                              ev_qid_' = qid_' s + of_nat i,
                              timer_' = \<lparr>timer_starts = 1, timer_armed = Some (query_timeout_' s)\<rparr>\<rparr>)
                     [0..<unat (window_' s)],
                 start_time_' := ptime clock,
                 queries_sent_' := queries_sent_' s + of_nat (unat (window_' s)),
                 qid_' := qid_' s + of_nat (unat (window_' s))\<rparr>)"
proof -
  define N where "N = unat (window_' s)"
  define pool where "pool =
    map (\<lambda>i. QueryEvent_new 0 \<lparr>ctx_serial = qryctx_creator_' s + i, ctx_started = 0\<rparr>) [0..<N]"
  define sock where "sock = createMessageSocket (server_address_' s) (server_port_' s)"
  define s5 where "s5 =
    s\<lparr>udp_socket_' := Some sock,
      session_timer_' := Some (MessageTimer_start (seconds (test_duration_' s)) createMessageTimer),
      qryctx_creator_' := qryctx_creator_' s + N,
      outstanding_' := pool,
      start_time_' := local_time clock\<rparr>"
  have len: "length pool = N" by (simp add: pool_def)
  have r: "run_init clock s = dispatch_initial [0..<N] s5"
    using assms
    by (simp add: run_init_def Let_def create_pool_eq s5_def pool_def N_def sock_def len
        del: upt.simps)
  have sk: "udp_socket_' s5 = Some sock" by (simp add: s5_def)
  have le: "N \<le> length (outstanding_' s5)" by (simp add: s5_def len)
  have outs: "map (\<lambda>i. if 0 \<le> i \<and> i < N
                     then snd (QueryEvent_start (qid_' s5 + of_nat (i - 0)) (query_timeout_' s5)
                                (outstanding_' s5 ! i))
                     else outstanding_' s5 ! i) [0..<length (outstanding_' s5)]
      = map (\<lambda>i. \<lparr>ctx_' = \<lparr>ctx_serial = qryctx_creator_' s + i, ctx_started = 1\<rparr>,
                   ev_qid_' = qid_' s + of_nat i,
                   timer_' = \<lparr>timer_starts = 1, timer_armed = Some (query_timeout_' s)\<rparr>\<rparr>) [0..<N]"
  proof (rule map_cong)
    show "[0..<length (outstanding_' s5)] = [0..<N]" by (simp add: s5_def len)
  next
    fix i
    assume "i \<in> set [0..<N]"
    then have i: "i < N" by simp
    then have "pool ! i = QueryEvent_new 0 \<lparr>ctx_serial = qryctx_creator_' s + i, ctx_started = 0\<rparr>"
      by (simp add: pool_def)
    with i show "(if 0 \<le> i \<and> i < N
           then snd (QueryEvent_start (qid_' s5 + of_nat (i - 0)) (query_timeout_' s5)
                      (outstanding_' s5 ! i))
           else outstanding_' s5 ! i)
        = \<lparr>ctx_' = \<lparr>ctx_serial = qryctx_creator_' s + i, ctx_started = 1\<rparr>,
           ev_qid_' = qid_' s + of_nat i,
           timer_' = \<lparr>timer_starts = 1, timer_armed = Some (query_timeout_' s)\<rparr>\<rparr>"
      by (simp add: s5_def QueryEvent_start_snd QueryEvent_new_def createMessageTimer_def)
  qed
  have wires: "map (\<lambda>i. fst (QueryEvent_start (qid_' s5 + of_nat (i - 0)) (query_timeout_' s5)
                              (outstanding_' s5 ! i))) [0..<N]
      = map (\<lambda>i. \<lparr>data_ctx = qryctx_creator_' s + i, data_seq = 0,
                   data_qid = qid_' s + of_nat i\<rparr>) [0..<N]"
  proof (rule map_cong [OF refl])
    fix i
    assume "i \<in> set [0..<N]"
    then have i: "i < N" by simp
    then have "pool ! i = QueryEvent_new 0 \<lparr>ctx_serial = qryctx_creator_' s + i, ctx_started = 0\<rparr>"
      by (simp add: pool_def)
    then show "fst (QueryEvent_start (qid_' s5 + of_nat (i - 0)) (query_timeout_' s5)
                     (outstanding_' s5 ! i))
        = \<lparr>data_ctx = qryctx_creator_' s + i, data_seq = 0, data_qid = qid_' s + of_nat i\<rparr>"
      by (simp add: s5_def QueryEvent_start_fst QueryEvent_new_def)
  qed
  note dispatch_initial_upt [OF sk le, of 0]
  then have "dispatch_initial [0..<N] s5 =
     Returned (s5\<lparr>outstanding_' :=
                    map (\<lambda>i. \<lparr>ctx_' = \<lparr>ctx_serial = qryctx_creator_' s + i, ctx_started = 1\<rparr>,
                               ev_qid_' = qid_' s + of_nat i,
                               timer_' = \<lparr>timer_starts = 1, timer_armed = Some (query_timeout_' s)\<rparr>\<rparr>)
                      [0..<N],
                  udp_socket_' := Some (sock\<lparr>sock_sent := sock_sent sock @
                    map (\<lambda>i. \<lparr>data_ctx = qryctx_creator_' s + i, data_seq = 0,
                               data_qid = qid_' s + of_nat i\<rparr>) [0..<N]\<rparr>),
                  queries_sent_' := queries_sent_' s5 + of_nat (N - 0),
                  qid_' := qid_' s5 + of_nat (N - 0)\<rparr>)"
    unfolding outs wires .
  with r show ?thesis
    by (simp add: s5_def sock_def N_def createMessageSocket_def MessageTimer_start_def
        createMessageTimer_def local_time_def del: upt.simps)
qed

subsection \<open>The counters\<close>

lemma unat_succ_le: "unat (c + 1 :: size_t) \<le> unat c + 1"
  by (simp add: unat_word_ariths)

lemma unat_succ_eq:
  assumes "unat (x :: size_t) + 1 < 2 ^ 64"
  shows "unat (x + 1) = unat x + 1"
  using assms by (simp add: unat_word_ariths)

lemma restartQuery_counted:
  assumes "counted s" and "unat (queries_sent_' s) + 1 < 2 ^ 64"
  shows "counted (state_of (restartQuery q r s))
    \<and> unat (queries_sent_' (state_of (restartQuery q r s))) \<le> unat (queries_sent_' s) + 1"
proof -
  define k where "k = find_if (\<lambda>ev. matchResponse ev q) (outstanding_' s)"
  have le: "k \<le> length (outstanding_' s)"
    unfolding k_def by (rule find_if_le)
  from assms(1) obtain sock where sock: "udp_socket_' s = Some sock"
    and inv: "unat (queries_completed_' s) + length (outstanding_' s) \<le> unat (queries_sent_' s)"
    by (auto simp: counted_def)
  note c = unat_succ_le [of "queries_completed_' s"]
  note t = unat_succ_eq [OF assms(2)]
  show ?thesis
  proof (cases "k = length (outstanding_' s)")
    case True
    then show ?thesis using assms(1) by (simp add: restartQuery_no_match k_def)
  next
    case False
    with le have lt: "k < length (outstanding_' s)" by simp
    show ?thesis
    proof (cases "keep_sending_' s")
      case False
      have "length (erase k (outstanding_' s)) = length (outstanding_' s) - 1"
        using lt by (simp add: erase_def)
      with False lt sock inv c show ?thesis
        by (auto simp: restartQuery_draining [OF _ k_def [symmetric]] counted_def)
    next
      case True
      with lt sock inv c t show ?thesis
        by (auto simp: restartQuery_sending [OF _ _ k_def [symmetric]] counted_def)
    qed
  qed
qed

lemma dispatch_counted:
  assumes "counted s" and "unat (queries_sent_' s) + 1 < 2 ^ 64"
  shows "counted (state_of (dispatch parse ev s))
    \<and> unat (queries_sent_' (state_of (dispatch parse ev s))) \<le> unat (queries_sent_' s) + 1"
proof (cases ev)
  case (Response sockev)
  show ?thesis
  proof (cases "parse sockev")
    case (Inl e)
    with Response assms(1) show ?thesis by (simp add: responseCallback_Inl counted_def)
  next
    case (Inr q)
    have "counted (s\<lparr>response_' := Parsed q\<rparr>)"
      and "unat (queries_sent_' (s\<lparr>response_' := Parsed q\<rparr>)) + 1 < 2 ^ 64"
      using assms by (simp_all add: counted_def)
    from restartQuery_counted [OF this, of q "Some (Parsed q)"]
    show ?thesis using Response Inr by (simp add: responseCallback_Inr)
  qed
next
  case (QueryTimer i)
  from restartQuery_counted [OF assms, of "ev_qid_' (outstanding_' s ! i)" None]
  show ?thesis using QueryTimer assms(1) by (simp add: queryTimerCallback_def)
next
  case SessionTimer
  then show ?thesis using assms(1) by (simp add: sessionTimerCallback_def counted_def)
qed

lemma MessageManager_run_counted:
  assumes "counted s" and "unat (queries_sent_' s) + length evs < 2 ^ 64"
  shows "counted (state_of (MessageManager_run parse evs s))"
  using assms
proof (induction evs arbitrary: s)
  case Nil
  then show ?case by simp
next
  case (Cons ev evs)
  from Cons.prems(2) have room: "unat (queries_sent_' s) + 1 < 2 ^ 64" by simp
  note step = dispatch_counted [OF Cons.prems(1) room, of parse ev]
  show ?case
  proof (cases "stop_calls (msg_mgr_' s) \<noteq> 0")
    case True
    then show ?thesis using Cons.prems(1) by simp
  next
    case False
    show ?thesis
    proof (cases "dispatch parse ev s")
      case (Returned s')
      with step have c: "counted s'"
        and "unat (queries_sent_' s') \<le> unat (queries_sent_' s) + 1" by simp_all
      with Cons.prems(2) have "unat (queries_sent_' s') + length evs < 2 ^ 64" by simp
      from Cons.IH [OF c this] Returned False show ?thesis by simp
    next
      case (Raised e s')
      with step False show ?thesis by simp
    next
      case (Running s')
      with step False show ?thesis by simp
    qed
  qed
qed

lemma run_init_counted:
  assumes "outstanding_' s = []" and "queries_sent_' s = 0" and "queries_completed_' s = 0"
  shows "\<exists>s'. run_init clock s = Returned s' \<and> counted s'
    \<and> unat (queries_sent_' s') = unat (window_' s)"
  unfolding run_init_fresh [OF assms(1)]
  by (simp add: counted_def assms(2,3) del: upt.simps)

subsection \<open>The socket, and a dispatcher before \<open>run\<close>\<close>

lemma restartQuery_socket:
  assumes "udp_socket_' s \<noteq> None"
  shows "udp_socket_' (state_of (restartQuery q r s)) \<noteq> None"
proof -
  define k where "k = find_if (\<lambda>ev. matchResponse ev q) (outstanding_' s)"
  have le: "k \<le> length (outstanding_' s)"
    unfolding k_def by (rule find_if_le)
  from assms obtain sock where sock: "udp_socket_' s = Some sock" by auto
  show ?thesis
  proof (cases "k = length (outstanding_' s)")
    case True
    then show ?thesis using assms by (simp add: restartQuery_no_match k_def)
  next
    case False
    with le have lt: "k < length (outstanding_' s)" by simp
    show ?thesis
    proof (cases "keep_sending_' s")
      case False
      with lt sock show ?thesis
        by (simp add: restartQuery_draining [OF _ k_def [symmetric]])
    next
      case True
      with lt sock show ?thesis
        by (simp add: restartQuery_sending [OF _ _ k_def [symmetric]])
    qed
  qed
qed

lemma dispatch_socket:
  assumes "udp_socket_' s \<noteq> None"
  shows "udp_socket_' (state_of (dispatch parse ev s)) \<noteq> None"
proof (cases ev)
  case (Response sockev)
  show ?thesis
  proof (cases "parse sockev")
    case (Inl e)
    with Response assms show ?thesis by (simp add: responseCallback_Inl)
  next
    case (Inr q)
    from assms have "udp_socket_' (s\<lparr>response_' := Parsed q\<rparr>) \<noteq> None" by simp
    from restartQuery_socket [OF this, of q "Some (Parsed q)"]
    show ?thesis using Response Inr by (simp add: responseCallback_Inr)
  qed
next
  case (QueryTimer i)
  from restartQuery_socket [OF assms, of "ev_qid_' (outstanding_' s ! i)" None]
  show ?thesis using QueryTimer assms by (simp add: queryTimerCallback_def)
next
  case SessionTimer
  then show ?thesis using assms by (simp add: sessionTimerCallback_def)
qed

lemma MessageManager_run_socket:
  assumes "udp_socket_' s \<noteq> None"
  shows "udp_socket_' (state_of (MessageManager_run parse evs s)) \<noteq> None"
  using assms
proof (induction evs arbitrary: s)
  case Nil
  then show ?case by simp
next
  case (Cons ev evs)
  note step = dispatch_socket [OF Cons.prems, of parse ev]
  show ?case
  proof (cases "dispatch parse ev s")
    case (Returned s')
    with step Cons.IH [of s'] Cons.prems show ?thesis by simp
  next
    case (Raised e s')
    with step Cons.prems show ?thesis by simp
  next
    case (Running s')
    with step Cons.prems show ?thesis by simp
  qed
qed

lemma impl_run_socket:
  assumes "outstanding_' s = []"
  shows "udp_socket_' (state_of (impl_run parse clock evs s)) \<noteq> None"
proof -
  have "udp_socket_' (state_of (run_init clock s)) \<noteq> None"
    unfolding run_init_fresh [OF assms] by simp
  then show ?thesis
    unfolding impl_run_def run_init_fresh [OF assms]
    by (simp add: MessageManager_run_socket del: upt.simps)
qed

lemma DispatcherImpl_new_fresh:
  "outstanding_' (DispatcherImpl_new d mgr creator) = []
   \<and> qid_' (DispatcherImpl_new d mgr creator) = 0
   \<and> queries_sent_' (DispatcherImpl_new d mgr creator) = 0
   \<and> queries_completed_' (DispatcherImpl_new d mgr creator) = 0
   \<and> udp_socket_' (DispatcherImpl_new d mgr creator) = None
   \<and> keep_sending_' (DispatcherImpl_new d mgr creator)
   \<and> window_' (DispatcherImpl_new d mgr creator) = DEFAULT_WINDOW d"
  by (simp add: DispatcherImpl_new_def initParams_def)

lemma setters_keep_fresh:
  "outstanding_' (state_of (setServerAddress address s)) = outstanding_' s
   \<and> qid_' (state_of (setServerAddress address s)) = qid_' s
   \<and> queries_sent_' (state_of (setServerAddress address s)) = queries_sent_' s
   \<and> queries_completed_' (state_of (setServerAddress address s)) = queries_completed_' s
   \<and> outstanding_' (state_of (setServerPort port s)) = outstanding_' s
   \<and> qid_' (state_of (setServerPort port s)) = qid_' s
   \<and> queries_sent_' (state_of (setServerPort port s)) = queries_sent_' s
   \<and> queries_completed_' (state_of (setServerPort port s)) = queries_completed_' s
   \<and> outstanding_' (state_of (setTestDuration duration s)) = outstanding_' s
   \<and> qid_' (state_of (setTestDuration duration s)) = qid_' s
   \<and> queries_sent_' (state_of (setTestDuration duration s)) = queries_sent_' s
   \<and> queries_completed_' (state_of (setTestDuration duration s)) = queries_completed_' s"
  by (simp add: setServerAddress_def setServerPort_def setTestDuration_def)

lemma Dispatcher_run_counters:
  "(queries_sent_' (state_of (Dispatcher_run parse clock clock' evs s)) = queries_sent_' s
     \<and> queries_completed_' (state_of (Dispatcher_run parse clock clock' evs s))
         = queries_completed_' s)
   \<or> (queries_sent_' (state_of (Dispatcher_run parse clock clock' evs s))
         = queries_sent_' (state_of (impl_run parse clock evs s))
     \<and> queries_completed_' (state_of (Dispatcher_run parse clock clock' evs s))
         = queries_completed_' (state_of (impl_run parse clock evs s)))"
  by (cases "impl_run parse clock evs s") (simp_all add: Dispatcher_run_def)

lemma MessageManager_run_stopped:
  assumes "stop_calls (msg_mgr_' s) \<noteq> 0"
  shows "MessageManager_run parse evs s = Returned s"
  using assms by (cases evs) simp_all

section \<open>The claims\<close>

subsection \<open>Restart with no matching query event\<close>

text \<open>
  C5: a \<open>restartQuery(id, present)\<close> for which no query event of the window has the
  identifier \<open>id\<close> returns and leaves the whole dispatcher state as it was: the sent and
  completed counts, the window with its order, and the identifier, context and timer of
  every query event.
\<close>

theorem restartQuery_unmatched_discarded:
  assumes "q \<notin> ev_qid_' ` set (outstanding_' s)"
  shows "restartQuery q response s = Returned s"
proof -
  from assms have "\<forall>ev \<in> set (outstanding_' s). \<not> matchResponse ev q"
    by (auto simp: matchResponse_def)
  then have "find_if (\<lambda>ev. matchResponse ev q) (outstanding_' s) = length (outstanding_' s)"
    by (simp add: find_if_none)
  then show ?thesis by (rule restartQuery_no_match)
qed

theorem restartQuery_unmatched_discarded_witness:
  "restartQuery 7 (Some (Parsed 7)) example_running = Returned example_running
   \<and> length (outstanding_' example_running) = 3"
  using restartQuery_unmatched_discarded [of 7 example_running "Some (Parsed 7)"]
  by (simp add: example_running_eq)

subsection \<open>The accessors\<close>

text \<open>
  C10: each of the seven accessors returns the field it is named after and leaves the
  dispatcher state as it was, in any state.
\<close>

theorem accessors_read_only:
  "getServerAddress s = (server_address_' s, s)
   \<and> getServerPort s = (server_port_' s, s)
   \<and> getTestDuration s = (test_duration_' s, s)
   \<and> getQueriesSent s = (queries_sent_' s, s)
   \<and> getQueriesCompleted s = (queries_completed_' s, s)
   \<and> getStartTime s = (start_time_' s, s)
   \<and> getEndTime s = (end_time_' s, s)"
  by (simp add: getServerAddress_def getServerPort_def getTestDuration_def getQueriesSent_def
      getQueriesCompleted_def getStartTime_def getEndTime_def)

subsection \<open>Where the restarted query event goes\<close>

text \<open>
  C1: while sending is enabled, the matched query event should be moved to the back of
  the window, the others keeping their order; the comment in \<open>restartQuery\<close> says so,
  and \<open>splice(end(), list, qev_it)\<close> would do it (\<open>splice_node_to_end\<close>). The call is
  \<open>outstanding_.splice(qev_it, outstanding_, outstanding_.end())\<close>, with the position
  and the moved iterator exchanged. It asks to move the end of the list, which the C++
  standard leaves undefined; the library relinks the end node in front of the matched
  event, which turns the window round (\<open>splice_node_end\<close>). In a window of the query
  events 0, 1, 2 (named by their contexts), with the identifiers 0, 1, 2, a response for
  identifier 1 leaves the window as 1, 2, 0: the matched event, now with identifier 3, is
  first, not last, and event 0 has moved behind event 2.
\<close>

theorem restartQuery_match_goes_to_front:
  "map (\<lambda>ev. (ctx_serial (ctx_' ev), ev_qid_' ev)) (outstanding_' example_running)
     = [(0, 0), (1, 1), (2, 2)]
   \<and> keep_sending_' example_running
   \<and> map (\<lambda>ev. (ctx_serial (ctx_' ev), ev_qid_' ev))
        (outstanding_' (state_of (restartQuery 1 (Some (Parsed 1)) example_running)))
     = [(1, 3), (2, 2), (0, 0)]"
  by code_simp

subsection \<open>A payload too short for a header\<close>

text \<open>
  C2: a datagram too short to hold a header should be dropped by the response callback.
  The callback has no handler around \<open>parseHeader\<close> (the source marks it as still to
  do), so the parser's exception leaves the callback, and with it the event loop and
  \<open>Dispatcher::run\<close>: here on a datagram of three bytes. The counters, the window and the
  timers are as they were when the exception is raised.
\<close>

theorem responseCallback_short_payload_raises:
  "responseCallback parseHeader [0, 1, 0] example_running = Raised MessageTooShort example_running
   \<and> Dispatcher_run parseHeader 100 200 [Response [0, 1, 0]] example_fresh
       = Raised MessageTooShort example_running"
  by code_simp

subsection \<open>The setters\<close>

text \<open>
  C3: each of \<open>setServerAddress\<close>, \<open>setServerPort\<close> and \<open>setTestDuration\<close> raises
  (a \<open>DispatcherError\<close>) exactly when the start time is set, that is, is not a special
  time. When it raises, the dispatcher state is as it was; otherwise it returns and the
  state differs in the one value it sets. A dispatcher as constructed has no start time;
  once \<open>run\<close> has begun it has one, whatever events arrive.
\<close>


theorem setters_raise_iff_started:
  "((\<exists>msg. setServerAddress address s = Raised (DispatcherError msg) s)
      \<longleftrightarrow> \<not> is_special (start_time_' s))
   \<and> ((\<exists>msg. setServerPort port s = Raised (DispatcherError msg) s)
      \<longleftrightarrow> \<not> is_special (start_time_' s))
   \<and> ((\<exists>msg. setTestDuration duration s = Raised (DispatcherError msg) s)
      \<longleftrightarrow> \<not> is_special (start_time_' s))
   \<and> (setServerAddress address s = Returned (s\<lparr>server_address_' := address\<rparr>)
      \<longleftrightarrow> is_special (start_time_' s))
   \<and> (setServerPort port s = Returned (s\<lparr>server_port_' := port\<rparr>)
      \<longleftrightarrow> is_special (start_time_' s))
   \<and> (setTestDuration duration s = Returned (s\<lparr>test_duration_' := duration\<rparr>)
      \<longleftrightarrow> is_special (start_time_' s))
   \<and> is_special (start_time_' (DispatcherImpl_new d mgr creator))
   \<and> \<not> is_special (start_time_' (state_of (impl_run parse clock evs s)))"
  by (simp add: setServerAddress_def setServerPort_def setTestDuration_def
      impl_run_start_time DispatcherImpl_new_start_time)

theorem setters_raise_iff_started_witness:
  "setServerAddress ''192.0.2.1'' example_running
     = Raised (DispatcherError ''server address cannot be reset after run()'') example_running
   \<and> setServerPort 5300 example_running
     = Raised (DispatcherError ''server port cannot be reset after run()'') example_running
   \<and> setTestDuration 60 example_running
     = Raised (DispatcherError ''test duration cannot be reset after run()'') example_running
   \<and> setServerAddress ''192.0.2.1'' example_fresh
     = Returned (example_fresh\<lparr>server_address_' := ''192.0.2.1''\<rparr>)
   \<and> setServerPort 5300 example_fresh = Returned (example_fresh\<lparr>server_port_' := 5300\<rparr>)
   \<and> setTestDuration 60 example_fresh = Returned (example_fresh\<lparr>test_duration_' := 60\<rparr>)"
  using setters_raise_iff_started [of "''192.0.2.1''" example_running 5300 60]
    setters_raise_iff_started [of "''192.0.2.1''" example_fresh 5300 60]
  by (simp add: example_running_eq example_fresh_eq setServerAddress_def setServerPort_def
      setTestDuration_def)

subsection \<open>After the session timer\<close>

text \<open>
  C4: the session timer callback disables sending, and nothing enables it again. In a
  state where sending is disabled, a \<open>restartQuery(id, present)\<close>, for any identifier and
  with or without a response, returns with the sent count, the send counter \<open>qid_\<close> and the
  socket (so what was sent through it) as they were, and with a window that is a
  subsequence of the one before: the query events that remain are unchanged, so none has
  a new identifier. The same holds for the state the event loop reaches on any events.
\<close>

theorem no_send_after_session_timer:
  "\<not> keep_sending_' (sessionTimerCallback s0)
   \<and> (\<not> keep_sending_' s \<longrightarrow>
        (\<exists>s'. restartQuery q response s = Returned s'
          \<and> \<not> keep_sending_' s'
          \<and> queries_sent_' s' = queries_sent_' s
          \<and> qid_' s' = qid_' s
          \<and> udp_socket_' s' = udp_socket_' s
          \<and> subseq (outstanding_' s') (outstanding_' s))
        \<and> \<not> keep_sending_' (state_of (MessageManager_run parse evs s))
        \<and> queries_sent_' (state_of (MessageManager_run parse evs s)) = queries_sent_' s
        \<and> qid_' (state_of (MessageManager_run parse evs s)) = qid_' s
        \<and> udp_socket_' (state_of (MessageManager_run parse evs s)) = udp_socket_' s
        \<and> subseq (outstanding_' (state_of (MessageManager_run parse evs s))) (outstanding_' s))"
  using restartQuery_draining_props [of s q response]
    MessageManager_run_draining_props [of s parse evs]
  by (simp add: sessionTimerCallback_def)


theorem no_send_after_session_timer_witness:
  "\<not> keep_sending_' (sessionTimerCallback example_running)
   \<and> queries_sent_' (sessionTimerCallback example_running) = 3
   \<and> map ev_qid_' (outstanding_' (sessionTimerCallback example_running)) = [0, 1, 2]
   \<and> queries_sent_' (state_of (restartQuery 1 (Some (Parsed 1))
         (sessionTimerCallback example_running))) = 3
   \<and> map ev_qid_' (outstanding_' (state_of (restartQuery 1 (Some (Parsed 1))
         (sessionTimerCallback example_running)))) = [0, 2]
   \<and> queries_sent_' (state_of (MessageManager_run parseHeader
         [QueryTimer 0, Response [0, 2, 0, 0, 0, 0, 0, 0, 0, 0, 0, 0]]
         (sessionTimerCallback example_running))) = 3
   \<and> map ev_qid_' (outstanding_' (state_of (MessageManager_run parseHeader
         [QueryTimer 0, Response [0, 2, 0, 0, 0, 0, 0, 0, 0, 0, 0, 0]]
         (sessionTimerCallback example_running)))) = [1]"
proof -
  let ?s = "sessionTimerCallback example_running"
  let ?evs = "[QueryTimer 0, Response [0, 2, 0, 0, 0, 0, 0, 0, 0, 0, 0, 0]]"
  have h: "\<not> keep_sending_' ?s"
    by (simp add: sessionTimerCallback_def)
  have v: "queries_sent_' ?s = 3 \<and> map ev_qid_' (outstanding_' ?s) = [0, 1, 2]
    \<and> map ev_qid_' (outstanding_' (state_of (restartQuery 1 (Some (Parsed 1)) ?s))) = [0, 2]
    \<and> map ev_qid_' (outstanding_' (state_of (MessageManager_run parseHeader ?evs ?s))) = [1]"
    by code_simp
  from no_send_after_session_timer [of example_running ?s 1 "Some (Parsed 1)" parseHeader ?evs] h
  have "(\<exists>s'. restartQuery 1 (Some (Parsed 1)) ?s = Returned s'
          \<and> queries_sent_' s' = queries_sent_' ?s)
    \<and> queries_sent_' (state_of (MessageManager_run parseHeader ?evs ?s)) = queries_sent_' ?s"
    by blast
  then have "queries_sent_' (state_of (restartQuery 1 (Some (Parsed 1)) ?s)) = queries_sent_' ?s
    \<and> queries_sent_' (state_of (MessageManager_run parseHeader ?evs ?s)) = queries_sent_' ?s"
    by force
  with h v show ?thesis by simp
qed

subsection \<open>Removal while draining\<close>

text \<open>
  C6: when sending is disabled and \<open>restartQuery\<close> finds a matching query event (the
  first one with the identifier, at position \<open>k\<close>), it erases that event from the window:
  the window is one shorter, and whatever events follow, the window stays a subsequence of
  what is left, so the event does not come back. \<open>stop()\<close> is called on the message
  manager once if the window is now empty and not at all otherwise; when it is called,
  the event loop returns without another callback. When \<open>Dispatcher::run\<close> returns,
  the end time is the clock's reading at that moment.
\<close>

theorem draining_restart_removes_and_stops:
  "(\<not> keep_sending_' s
     \<and> k = find_if (\<lambda>ev. matchResponse ev q) (outstanding_' s)
     \<and> k < length (outstanding_' s)
    \<longrightarrow> (\<exists>s'. restartQuery q response s = Returned s'
          \<and> outstanding_' s' = take k (outstanding_' s) @ drop (Suc k) (outstanding_' s)
          \<and> length (outstanding_' s') = length (outstanding_' s) - 1
          \<and> stop_calls (msg_mgr_' s')
              = stop_calls (msg_mgr_' s) + (if outstanding_' s' = [] then 1 else 0)
          \<and> subseq (outstanding_' (state_of (MessageManager_run parse evs s')))
               (outstanding_' s')
          \<and> (outstanding_' s' = [] \<longrightarrow> MessageManager_run parse evs s' = Returned s')))
   \<and> (Dispatcher_run parse clock clock' evs0 s0 = Returned s1
    \<longrightarrow> end_time_' s1 = local_time clock')"
proof (intro conjI impI)
  assume a: "\<not> keep_sending_' s
     \<and> k = find_if (\<lambda>ev. matchResponse ev q) (outstanding_' s)
     \<and> k < length (outstanding_' s)"
  let ?s' = "s\<lparr>queries_completed_' :=
                  (if response \<noteq> None then queries_completed_' s + 1 else queries_completed_' s),
                outstanding_' := erase k (outstanding_' s),
                msg_mgr_' := (if erase k (outstanding_' s) = []
                              then MessageManager_stop (msg_mgr_' s) else msg_mgr_' s)\<rparr>"
  from a have r: "restartQuery q response s = Returned ?s'"
    by (intro restartQuery_draining) simp_all
  have d: "\<not> keep_sending_' ?s'"
    using a by simp
  have len: "length (erase k (outstanding_' s)) = length (outstanding_' s) - 1"
    using a by (simp add: erase_def)
  have sub: "subseq (outstanding_' (state_of (MessageManager_run parse evs ?s')))
      (outstanding_' ?s')"
    using MessageManager_run_draining_props [OF d] by simp
  have stop: "MessageManager_run parse evs ?s' = Returned ?s'" if "outstanding_' ?s' = []"
  proof (rule MessageManager_run_stopped)
    from that show "stop_calls (msg_mgr_' ?s') \<noteq> 0"
      by (simp add: MessageManager_stop_def)
  qed
  have "outstanding_' ?s' = take k (outstanding_' s) @ drop (Suc k) (outstanding_' s)
      \<and> length (outstanding_' ?s') = length (outstanding_' s) - 1
      \<and> stop_calls (msg_mgr_' ?s')
          = stop_calls (msg_mgr_' s) + (if outstanding_' ?s' = [] then 1 else 0)"
    using len by (simp add: erase_def MessageManager_stop_def)
  with r sub stop show "\<exists>s'. restartQuery q response s = Returned s'
          \<and> outstanding_' s' = take k (outstanding_' s) @ drop (Suc k) (outstanding_' s)
          \<and> length (outstanding_' s') = length (outstanding_' s) - 1
          \<and> stop_calls (msg_mgr_' s')
              = stop_calls (msg_mgr_' s) + (if outstanding_' s' = [] then 1 else 0)
          \<and> subseq (outstanding_' (state_of (MessageManager_run parse evs s')))
               (outstanding_' s')
          \<and> (outstanding_' s' = [] \<longrightarrow> MessageManager_run parse evs s' = Returned s')"
    by blast
next
  assume "Dispatcher_run parse clock clock' evs0 s0 = Returned s1"
  then show "end_time_' s1 = local_time clock'"
    by (rule Dispatcher_run_Returned)
qed


theorem draining_restart_removes_and_stops_witness:
  "map ev_qid_' (outstanding_' (sessionTimerCallback example_running)) = [0, 1, 2]
   \<and> map ev_qid_' (outstanding_' (state_of (restartQuery 1 (Some (Parsed 1))
         (sessionTimerCallback example_running)))) = [0, 2]
   \<and> stop_calls (msg_mgr_' (state_of (restartQuery 1 (Some (Parsed 1))
         (sessionTimerCallback example_running)))) = 0
   \<and> length (outstanding_' (state_of (restartQuery 1 (Some (Parsed 1))
         (sessionTimerCallback example_running)))) = 2
   \<and> outstanding_' (state_of (Dispatcher_run parseHeader 100 200
         [SessionTimer, QueryTimer 0, QueryTimer 0, QueryTimer 0] example_fresh)) = []
   \<and> stop_calls (msg_mgr_' (state_of (Dispatcher_run parseHeader 100 200
         [SessionTimer, QueryTimer 0, QueryTimer 0, QueryTimer 0] example_fresh))) = 1
   \<and> end_time_' (state_of (Dispatcher_run parseHeader 100 200
         [SessionTimer, QueryTimer 0, QueryTimer 0, QueryTimer 0] example_fresh)) = local_time 200"
proof -
  let ?s = "sessionTimerCallback example_running"
  let ?evs0 = "[SessionTimer, QueryTimer 0, QueryTimer 0, QueryTimer 0]"
  let ?s1 = "state_of (Dispatcher_run parseHeader 100 200 ?evs0 example_fresh)"
  have h: "\<not> keep_sending_' ?s
     \<and> 1 = find_if (\<lambda>ev. matchResponse ev 1) (outstanding_' ?s)
     \<and> 1 < length (outstanding_' ?s)"
    by code_simp
  have h': "Dispatcher_run parseHeader 100 200 ?evs0 example_fresh = Returned ?s1"
    by code_simp
  have v: "map ev_qid_' (outstanding_' ?s) = [0, 1, 2]
    \<and> map ev_qid_' (outstanding_' (state_of (restartQuery 1 (Some (Parsed 1)) ?s))) = [0, 2]
    \<and> stop_calls (msg_mgr_' (state_of (restartQuery 1 (Some (Parsed 1)) ?s))) = 0
    \<and> outstanding_' ?s1 = []
    \<and> stop_calls (msg_mgr_' ?s1) = 1"
    by code_simp
  from draining_restart_removes_and_stops
    [of ?s 1 1 "Some (Parsed 1)" parseHeader "[]" 100 200 ?evs0 example_fresh ?s1] h h'
  have "(\<exists>s'. restartQuery 1 (Some (Parsed 1)) ?s = Returned s'
          \<and> length (outstanding_' s') = length (outstanding_' ?s) - 1)
    \<and> end_time_' ?s1 = local_time 200"
    by blast
  then have "length (outstanding_' (state_of (restartQuery 1 (Some (Parsed 1)) ?s)))
      = length (outstanding_' ?s) - 1
    \<and> end_time_' ?s1 = local_time 200"
    by force
  moreover have "length (outstanding_' ?s) = 3"
    by code_simp
  ultimately show ?thesis using v by simp
qed

subsection \<open>The identifier of a restarted query\<close>

text \<open>
  C8: while sending is enabled, a \<open>restartQuery\<close> that finds a match (the first query
  event with the identifier, at position \<open>k\<close>) gives that query event the current value
  of the send counter \<open>qid_\<close> as its new identifier and arms its timer with the query
  timeout; the other query events keep theirs. The send counter is then one more, modulo
  \<open>2 ^ 16\<close>, and the sent count is one more. The socket exists in every state that
  \<open>run\<close> reaches (\<open>impl_run_socket\<close>).
\<close>

theorem restart_assigns_send_counter:
  assumes "keep_sending_' s"
    and "udp_socket_' s = Some sock"
    and "k = find_if (\<lambda>ev. matchResponse ev q) (outstanding_' s)"
    and "k < length (outstanding_' s)"
  shows "\<exists>s' ev'. restartQuery q response s = Returned s'
    \<and> outstanding_' s' = ev' # drop (Suc k) (outstanding_' s) @ take k (outstanding_' s)
    \<and> ctx_serial (ctx_' ev') = ctx_serial (ctx_' (outstanding_' s ! k))
    \<and> ev_qid_' ev' = qid_' s
    \<and> timer_armed (timer_' ev') = Some (query_timeout_' s)
    \<and> qid_' s' = qid_' s + 1
    \<and> unat (qid_' s') = (unat (qid_' s) + 1) mod 2 ^ 16
    \<and> queries_sent_' s' = queries_sent_' s + 1"
proof -
  let ?ev = "snd (QueryEvent_start (qid_' s) (query_timeout_' s) (outstanding_' s ! k))"
  have w: "unat (qid_' s + 1) = (unat (qid_' s) + 1) mod 2 ^ 16"
    by (simp add: unat_word_ariths)
  have "drop k ((outstanding_' s)[k := ?ev]) = ?ev # drop (Suc k) (outstanding_' s)"
    using assms(4) by (rule drop_update_same)
  with restartQuery_sending [OF assms(1,2) assms(3) [symmetric] assms(4), of response] w
  show ?thesis
    by (simp add: QueryEvent_start_snd)
qed

theorem restart_assigns_send_counter_witness:
  "qid_' (example_running\<lparr>qid_' := 65535\<rparr>) = 65535
   \<and> map ev_qid_' (outstanding_' (example_running\<lparr>qid_' := 65535\<rparr>)) = [0, 1, 2]
   \<and> map ev_qid_' (outstanding_' (state_of
        (restartQuery 2 None (example_running\<lparr>qid_' := 65535\<rparr>)))) = [65535, 0, 1]
   \<and> qid_' (state_of (restartQuery 2 None (example_running\<lparr>qid_' := 65535\<rparr>))) = 0
   \<and> unat (qid_' (state_of (restartQuery 2 None (example_running\<lparr>qid_' := 65535\<rparr>))))
       = (65535 + 1) mod 2 ^ 16"
proof -
  let ?s = "example_running\<lparr>qid_' := 65535\<rparr>"
  have h: "keep_sending_' ?s \<and> udp_socket_' ?s = Some (the (udp_socket_' ?s))
    \<and> 2 = find_if (\<lambda>ev. matchResponse ev 2) (outstanding_' ?s)
    \<and> 2 < length (outstanding_' ?s)"
    by (simp add: example_running_eq matchResponse_def)
  have v: "qid_' ?s = 65535
    \<and> map ev_qid_' (outstanding_' ?s) = [0, 1, 2]
    \<and> map ev_qid_' (outstanding_' (state_of (restartQuery 2 None ?s))) = [65535, 0, 1]
    \<and> qid_' (state_of (restartQuery 2 None ?s)) = 0"
    by code_simp
  from h restart_assigns_send_counter [of ?s "the (udp_socket_' ?s)" 2 2 None]
  have "\<exists>s'. restartQuery 2 None ?s = Returned s'
      \<and> unat (qid_' s') = (unat (qid_' ?s) + 1) mod 2 ^ 16"
    by blast
  then have "unat (qid_' (state_of (restartQuery 2 None ?s))) = (unat (qid_' ?s) + 1) mod 2 ^ 16"
    by force
  with v show ?thesis by simp
qed

subsection \<open>The initial queries\<close>

text \<open>
  C7: from a dispatcher that has not run (an empty window, the send counter at 0), with a
  window size N, \<open>run\<close> reaches the event loop with a window of exactly N query
  events, each with a context of its own, and has sent exactly one request for each, in
  the order of the window. The identifiers of the query events, and of their requests,
  are 0, 1, ..., N - 1, in strictly increasing order; the sent count is N more, and the
  send counter equals N. The window size is below \<open>2 ^ 16\<close>, the number of
  identifiers: \<open>window_\<close> is only ever set from the constant \<open>DEFAULT_WINDOW\<close>.
\<close>

theorem run_creates_window:
  assumes "outstanding_' s = []" and "qid_' s = 0" and "unat (window_' s) < 2 ^ 16"
  shows "\<exists>s' sock. run_init clock s = Returned s'
    \<and> udp_socket_' s' = Some sock
    \<and> length (outstanding_' s') = unat (window_' s)
    \<and> map (\<lambda>ev. ctx_serial (ctx_' ev)) (outstanding_' s')
        = map (\<lambda>i. qryctx_creator_' s + i) [0..<unat (window_' s)]
    \<and> map data_ctx (sock_sent sock) = map (\<lambda>i. qryctx_creator_' s + i) [0..<unat (window_' s)]
    \<and> map (\<lambda>ev. unat (ev_qid_' ev)) (outstanding_' s') = [0..<unat (window_' s)]
    \<and> map (\<lambda>d. unat (data_qid d)) (sock_sent sock) = [0..<unat (window_' s)]
    \<and> sorted_wrt (<) (map (\<lambda>ev. unat (ev_qid_' ev)) (outstanding_' s'))
    \<and> queries_sent_' s' = queries_sent_' s + window_' s
    \<and> unat (qid_' s') = unat (window_' s)"
proof -
  define N where "N = unat (window_' s)"
  from assms(3) have N: "N < 2 ^ 16" by (simp add: N_def)
  have "map (\<lambda>i. unat (of_nat i :: qid_t)) [0..<N] = map (\<lambda>i. i) [0..<N]"
  proof (rule map_cong [OF refl])
    fix i
    assume "i \<in> set [0..<N]"
    with N have "i < 2 ^ 16" by simp
    then show "unat (of_nat i :: qid_t) = i"
      by (simp add: unat_of_nat)
  qed
  then have small: "map (\<lambda>i. unat (of_nat i :: qid_t)) [0..<N] = [0..<N]"
    by simp
  have cnt: "unat (of_nat N :: qid_t) = N"
    using N by (simp add: unat_of_nat)
  show ?thesis
    unfolding run_init_fresh [OF assms(1)] N_def [symmetric]
    using small cnt by (simp add: assms(2) comp_def N_def del: upt.simps)
qed

theorem run_creates_window_witness:
  "run_init 100 example_fresh = Returned example_running
   \<and> unat (window_' example_fresh) = 3
   \<and> length (outstanding_' example_running) = 3
   \<and> map (\<lambda>ev. unat (ev_qid_' ev)) (outstanding_' example_running) = [0..<3]
   \<and> queries_sent_' example_running = 0 + 3
   \<and> unat (qid_' example_running) = 3"
proof -
  have h: "outstanding_' example_fresh = [] \<and> qid_' example_fresh = 0
    \<and> unat (window_' example_fresh) < 2 ^ 16
    \<and> unat (window_' example_fresh) = 3 \<and> window_' example_fresh = 3
    \<and> queries_sent_' example_fresh = 0"
    by (simp add: example_fresh_eq)
  have r: "run_init 100 example_fresh = Returned example_running"
    by code_simp
  from h run_creates_window [of example_fresh 100] r
  have "length (outstanding_' example_running) = 3
    \<and> map (\<lambda>ev. unat (ev_qid_' ev)) (outstanding_' example_running) = [0..<3]
    \<and> queries_sent_' example_running = 0 + 3
    \<and> unat (qid_' example_running) = 3"
    by (auto simp del: upt.simps)
  with h r show ?thesis by simp
qed

subsection \<open>Completed and sent\<close>

text \<open>
  C9: in the dispatcher as it is before \<open>run\<close>, and in every state that \<open>run\<close>
  reaches from it (its initial queries, then any events: responses, expiries of query
  timers and of the session timer), the completed count is at most the sent count; indeed
  the completed count and the length of the window together are at most the sent count.
  The counters are \<open>size_t\<close>, and each event sends at most one query: the events of a
  run, with the window size, stay below \<open>2 ^ 64\<close>, so the sent count is the number of
  queries sent.
\<close>

theorem completed_le_sent:
  assumes "outstanding_' s = []" and "queries_sent_' s = 0" and "queries_completed_' s = 0"
    and "unat (window_' s) + length evs < 2 ^ 64"
  shows "queries_completed_' s \<le> queries_sent_' s
    \<and> queries_completed_' (state_of (impl_run parse clock evs s))
        \<le> queries_sent_' (state_of (impl_run parse clock evs s))
    \<and> unat (queries_completed_' (state_of (impl_run parse clock evs s)))
        + length (outstanding_' (state_of (impl_run parse clock evs s)))
        \<le> unat (queries_sent_' (state_of (impl_run parse clock evs s)))
    \<and> queries_completed_' (state_of (Dispatcher_run parse clock clock' evs s))
        \<le> queries_sent_' (state_of (Dispatcher_run parse clock clock' evs s))"
proof -
  from run_init_counted [OF assms(1-3), of clock]
  obtain s' where r: "run_init clock s = Returned s'" and c: "counted s'"
    and n: "unat (queries_sent_' s') = unat (window_' s)"
    by blast
  from n assms(4) have "unat (queries_sent_' s') + length evs < 2 ^ 64" by simp
  from MessageManager_run_counted [OF c this, of parse] r
  have "counted (state_of (impl_run parse clock evs s))"
    by (simp add: impl_run_def)
  then have "queries_completed_' (state_of (impl_run parse clock evs s))
        \<le> queries_sent_' (state_of (impl_run parse clock evs s))
    \<and> unat (queries_completed_' (state_of (impl_run parse clock evs s)))
        + length (outstanding_' (state_of (impl_run parse clock evs s)))
        \<le> unat (queries_sent_' (state_of (impl_run parse clock evs s)))"
    by (simp add: counted_def word_le_nat_alt)
  with Dispatcher_run_counters [of parse clock clock' evs s] assms(2,3)
  show ?thesis by auto
qed

theorem completed_le_sent_witness:
  "queries_completed_' (state_of (impl_run parseHeader 100
       [Response [0, 1, 0, 0, 0, 0, 0, 0, 0, 0, 0, 0], QueryTimer 2, SessionTimer,
        Response [0, 3, 0, 0, 0, 0, 0, 0, 0, 0, 0, 0]] example_fresh)) = 2
   \<and> queries_sent_' (state_of (impl_run parseHeader 100
       [Response [0, 1, 0, 0, 0, 0, 0, 0, 0, 0, 0, 0], QueryTimer 2, SessionTimer,
        Response [0, 3, 0, 0, 0, 0, 0, 0, 0, 0, 0, 0]] example_fresh)) = 5
   \<and> queries_completed_' (state_of (impl_run parseHeader 100
       [Response [0, 1, 0, 0, 0, 0, 0, 0, 0, 0, 0, 0], QueryTimer 2, SessionTimer,
        Response [0, 3, 0, 0, 0, 0, 0, 0, 0, 0, 0, 0]] example_fresh))
     \<le> queries_sent_' (state_of (impl_run parseHeader 100
       [Response [0, 1, 0, 0, 0, 0, 0, 0, 0, 0, 0, 0], QueryTimer 2, SessionTimer,
        Response [0, 3, 0, 0, 0, 0, 0, 0, 0, 0, 0, 0]] example_fresh))"
proof -
  let ?evs = "[Response [0, 1, 0, 0, 0, 0, 0, 0, 0, 0, 0, 0], QueryTimer 2, SessionTimer,
        Response [0, 3, 0, 0, 0, 0, 0, 0, 0, 0, 0, 0]]"
  have h: "outstanding_' example_fresh = [] \<and> queries_sent_' example_fresh = 0
    \<and> queries_completed_' example_fresh = 0
    \<and> unat (window_' example_fresh) + length ?evs < 2 ^ 64"
    by (simp add: example_fresh_eq)
  have v: "queries_completed_' (state_of (impl_run parseHeader 100 ?evs example_fresh)) = 2
    \<and> queries_sent_' (state_of (impl_run parseHeader 100 ?evs example_fresh)) = 5"
    by code_simp
  from h completed_le_sent [of example_fresh ?evs parseHeader 100 200]
  have "queries_completed_' (state_of (impl_run parseHeader 100 ?evs example_fresh))
     \<le> queries_sent_' (state_of (impl_run parseHeader 100 ?evs example_fresh))"
    by blast
  with v show ?thesis by blast
qed

end
